theory Spec2Isabelle
  imports Main
begin

section \<open>The Gatepay client: configuration and sub-clients\<close>

text \<open>
  The client class \<open>Gatepay\<close> of \<open>client.ts\<close> owns one \<open>Configuration\<close> object and
  one instance of each generated sub-client (\<open>AccountApi\<close>, \<open>LinksApi\<close>, \<open>NetworksApi\<close>).
  Objects of JavaScript are references, and two of the properties below depend on which
  object a reference points at, so objects live in an explicit store: one list per class,
  the address of an object being its index. \<open>new\<close> appends to the list and never
  changes an older cell.
\<close>

type_synonym addr = nat

text \<open>\<open>interface GatepayClientOptions { apiToken: string; basePath?: string }\<close>\<close>

record GatepayClientOptions =
  apiToken :: string
  basePath :: "string option"

text \<open>
  Modelled from the spec: the class \<open>Configuration\<close> of \<open>./runtime\<close> is generated code
  that is not part of the sources. The client builds it from the two parameters
  \<open>basePath\<close> and \<open>accessToken\<close> and reads the same two properties back; the
  specification describes it as an immutable pair of base address and credential with no
  validation beyond presence.
\<close>

record Configuration =
  basePath :: string
  accessToken :: string

text \<open>
  Modelled from the spec: a generated sub-client keeps the reference to the
  \<open>Configuration\<close> it was constructed with (\<open>new AccountApi(this.configuration)\<close>) and
  reads it at call time.
\<close>

datatype sub_client = AccountApi addr | LinksApi addr | NetworksApi addr

fun configuration_of :: "sub_client \<Rightarrow> addr" where
  "configuration_of (AccountApi c) = c"
| "configuration_of (LinksApi c) = c"
| "configuration_of (NetworksApi c) = c"

record js_heap =
  configurations :: "Configuration list"
  sub_clients :: "sub_client list"

definition empty_heap :: js_heap where
  "empty_heap = \<lparr>configurations = [], sub_clients = []\<rparr>"

definition new_Configuration :: "Configuration \<Rightarrow> js_heap \<Rightarrow> addr \<times> js_heap" where
  "new_Configuration c h =
     (length (configurations h), h\<lparr>configurations := configurations h @ [c]\<rparr>)"

definition new_sub_client :: "sub_client \<Rightarrow> js_heap \<Rightarrow> addr \<times> js_heap" where
  "new_sub_client s h =
     (length (sub_clients h), h\<lparr>sub_clients := sub_clients h @ [s]\<rparr>)"

text \<open>The fields of the class: four references.\<close>

record Gatepay =
  configuration :: addr
  account :: addr
  links :: addr
  networks :: addr

text \<open>
  \<open>options.basePath || "https://api.gatepay.cloud"\<close>: the operator \<open>||\<close> takes its
  right operand when the left one is falsy, which for \<open>string | undefined\<close> means
  \<open>undefined\<close> or the empty string.
\<close>

definition default_basePath :: string where
  "default_basePath = ''https://api.gatepay.cloud''"

definition basePath_or_default :: "string option \<Rightarrow> string" where
  "basePath_or_default b =
     (case b of None \<Rightarrow> default_basePath
      | Some s \<Rightarrow> if s = [] then default_basePath else s)"

text \<open>
  The tail shared by the constructor and the two update methods: the three
  \<open>new ...Api(this.configuration)\<close>, in the order of the source.
\<close>

definition bind_sub_clients :: "addr \<Rightarrow> js_heap \<Rightarrow> Gatepay \<times> js_heap" where
  "bind_sub_clients c h0 =
     (let (a, h1) = new_sub_client (AccountApi c) h0;
          (l, h2) = new_sub_client (LinksApi c) h1;
          (n, h3) = new_sub_client (NetworksApi c) h2
      in (\<lparr>configuration = c, account = a, links = l, networks = n\<rparr>, h3))"

definition new_Gatepay :: "GatepayClientOptions \<Rightarrow> js_heap \<Rightarrow> Gatepay \<times> js_heap" where
  "new_Gatepay options h =
     (let (c, h1) = new_Configuration
                      \<lparr>basePath = basePath_or_default (GatepayClientOptions.basePath options),
                       accessToken = apiToken options\<rparr> h
      in bind_sub_clients c h1)"

definition updateApiToken :: "string \<Rightarrow> Gatepay \<times> js_heap \<Rightarrow> Gatepay \<times> js_heap" where
  "updateApiToken token gh =
     (let (this, h) = gh;
          (c, h1) = new_Configuration
                      \<lparr>basePath = basePath (configurations h ! configuration this),
                       accessToken = token\<rparr> h
      in bind_sub_clients c h1)"

definition updateBasePath :: "string \<Rightarrow> Gatepay \<times> js_heap \<Rightarrow> Gatepay \<times> js_heap" where
  "updateBasePath path gh =
     (let (this, h) = gh;
          (c, h1) = new_Configuration
                      \<lparr>basePath = path,
                       accessToken = accessToken (configurations h ! configuration this)\<rparr> h
      in bind_sub_clients c h1)"

definition getConfiguration :: "Gatepay \<Rightarrow> addr" where
  "getConfiguration this = configuration this"

text \<open>
  The credential a call through a sub-client handle is made with: the token of the
  \<open>Configuration\<close> the handle's object was constructed with.
\<close>

definition credential_used :: "js_heap \<Rightarrow> addr \<Rightarrow> string" where
  "credential_used h client =
     accessToken (configurations h ! configuration_of (sub_clients h ! client))"

text \<open>
  References of JavaScript never dangle. \<open>live\<close> says so for a client and a store: the
  four references of the client, and the reference held by every sub-client object of the
  store, point at allocated cells.
\<close>

definition live :: "Gatepay \<times> js_heap \<Rightarrow> bool" where
  "live gh =
     (let (this, h) = gh in
        configuration this < length (configurations h) \<and>
        account this < length (sub_clients h) \<and>
        links this < length (sub_clients h) \<and>
        networks this < length (sub_clients h) \<and>
        list_all (\<lambda>s. configuration_of s < length (configurations h)) (sub_clients h))"

text \<open>The mutations a caller can apply after construction, and a run of them.\<close>

datatype update = UpdateApiToken string | UpdateBasePath string

fun argument :: "update \<Rightarrow> string" where
  "argument (UpdateApiToken t) = t"
| "argument (UpdateBasePath p) = p"

fun apply_update :: "update \<Rightarrow> Gatepay \<times> js_heap \<Rightarrow> Gatepay \<times> js_heap" where
  "apply_update (UpdateApiToken t) gh = updateApiToken t gh"
| "apply_update (UpdateBasePath p) gh = updateBasePath p gh"

fun apply_updates :: "update list \<Rightarrow> Gatepay \<times> js_heap \<Rightarrow> Gatepay \<times> js_heap" where
  "apply_updates [] gh = gh"
| "apply_updates (u # us) gh = apply_updates us (apply_update u gh)"

text \<open>The \<open>Configuration\<close> the client currently holds.\<close>

definition current_configuration :: "Gatepay \<times> js_heap \<Rightarrow> Configuration" where
  "current_configuration gh = (let (this, h) = gh in configurations h ! getConfiguration this)"

definition non_empty_fields :: "Configuration \<Rightarrow> bool" where
  "non_empty_fields c = (basePath c \<noteq> [] \<and> accessToken c \<noteq> [])"

section \<open>Composite link creation\<close>

subsection \<open>Requests, responses and thrown values\<close>

text \<open>
  Modelled from the spec: the request and response types of \<open>./models\<close> are generated
  code that is not part of the sources. Their fields are taken from the data model of the
  specification and from the calls in the sources. \<open>createLink\<close> reads the \<open>uuid\<close> of a
  response and the properties \<open>toll\<close>, \<open>resource\<close> and \<open>actions\<close> of its argument, and
  passes everything else through. The property \<open>alias\<close> is written \<open>linkAlias\<close>, since
  \<open>alias\<close> is a keyword.
\<close>

record PostLinksRequest =
  name :: string
  linkAlias :: "string option"
  description :: "string option"
  status :: "string option"
  type :: "string option"

record TollPaymentRequirement =
  assetNetwork :: string
  assetAddress :: string
  amount :: string
  destinationAddress :: string

record PostLinksByLinkUuidTollsRequest =
  tollPaymentRequirements :: "TollPaymentRequirement list"

datatype resource_data = Url_data string | Html_data string

text \<open>A resource is its \<open>type\<close> tag and its \<open>data\<close>.\<close>

datatype PostLinksByLinkUuidResourcesRequest = Resource string resource_data

text \<open>An action is its \<open>type\<close>, its \<open>trigger\<close>, and the \<open>url\<close> and \<open>method\<close> of its \<open>data\<close>.\<close>

datatype PostLinksByLinkUuidActionsRequest = Action string string string string

text \<open>
  \<open>interface CreateLinkOptions extends PostLinksRequest\<close> with the optional properties
  \<open>toll\<close>, \<open>resource\<close> and \<open>actions\<close>; \<open>None\<close> is \<open>undefined\<close>.
\<close>

record CreateLinkOptions = PostLinksRequest +
  toll :: "PostLinksByLinkUuidTollsRequest option"
  resource :: "PostLinksByLinkUuidResourcesRequest option"
  actions :: "PostLinksByLinkUuidActionsRequest list option"

record PostLinks201Response =
  uuid :: "string option"
  url :: "string option"

text \<open>
  What a \<open>throw\<close> can carry. \<open>JsError m s c\<close> is an instance of \<open>Error\<close> with message
  \<open>m\<close>, the HTTP status \<open>s\<close> of the response when the error comes from one (the errors
  of the transport carry one, according to the specification and the README), and the
  property \<open>cause\<close>. \<open>JsOther\<close> is any value that is not an instance of \<open>Error\<close>.
\<close>

datatype js_value = JsError string "nat option" "js_value option" | JsOther

fun instanceof_Error :: "js_value \<Rightarrow> bool" where
  "instanceof_Error (JsError m s c) = True"
| "instanceof_Error JsOther = False"

fun message :: "js_value \<Rightarrow> string" where
  "message (JsError m s c) = m"
| "message JsOther = []"

fun http_status :: "js_value \<Rightarrow> nat option" where
  "http_status (JsError m s c) = s"
| "http_status JsOther = None"

fun cause :: "js_value \<Rightarrow> js_value option" where
  "cause (JsError m s c) = c"
| "cause JsOther = None"

text \<open>\<open>new Error(m)\<close>, with one argument: a plain error, no status and no cause.\<close>

definition new_Error :: "string \<Rightarrow> js_value" where
  "new_Error m = JsError m None None"

text \<open>
  An error \<open>e0\<close> can be reached from \<open>e\<close> when it is \<open>e\<close> or is found by following
  \<open>cause\<close> from \<open>e\<close>.
\<close>

fun reachable_from :: "js_value \<Rightarrow> js_value \<Rightarrow> bool" where
  "reachable_from e0 (JsError m s None) = (e0 = JsError m s None)"
| "reachable_from e0 (JsError m s (Some c)) = (e0 = JsError m s (Some c) \<or> reachable_from e0 c)"
| "reachable_from e0 JsOther = (e0 = JsOther)"

subsection \<open>The Links sub-client and the world it acts on\<close>

text \<open>
  The methods of \<open>this.links\<close> that \<open>createLink\<close> calls. The class \<open>LinksApi\<close> is
  generated code outside the sources, so its behaviour is a parameter: each method takes
  its request and the state \<open>'s\<close> of the remote service, and gives the new state of the
  service with either the thrown value (\<open>Inl\<close>, a rejected promise) or the response
  (\<open>Inr\<close>). The responses of the three sub-resource calls are discarded by the caller.
\<close>

type_synonym ('s, 'r) remote = "'s \<Rightarrow> (js_value + 'r) \<times> 's"

record 's LinksApi_methods =
  postLinks :: "CreateLinkOptions \<Rightarrow> ('s, PostLinks201Response) remote"
  postLinksByLinkUuidTolls :: "string \<Rightarrow> PostLinksByLinkUuidTollsRequest \<Rightarrow> ('s, unit) remote"
  postLinksByLinkUuidResources :: "string \<Rightarrow> PostLinksByLinkUuidResourcesRequest \<Rightarrow> ('s, unit) remote"
  postLinksByLinkUuidActions :: "string \<Rightarrow> PostLinksByLinkUuidActionsRequest \<Rightarrow> ('s, unit) remote"
  getLinksByUuidOrAlias :: "string \<Rightarrow> ('s, PostLinks201Response) remote"

text \<open>
  The remote calls of the Links sub-client that matter here, with their arguments.
  \<open>deleteLinksByUuid\<close> is the call a rollback would need; \<open>createLink\<close> has no use of it.
\<close>

datatype remote_call =
    Call_postLinks CreateLinkOptions
  | Call_postLinksByLinkUuidTolls string PostLinksByLinkUuidTollsRequest
  | Call_postLinksByLinkUuidResources string PostLinksByLinkUuidResourcesRequest
  | Call_postLinksByLinkUuidActions string PostLinksByLinkUuidActionsRequest
  | Call_getLinksByUuidOrAlias string
  | Call_deleteLinksByUuid string

text \<open>
  The world of one run: the store of option objects (the caller's \<open>options\<close> and the
  request object that \<open>createLink\<close> builds; an address is an index), the state of the
  remote service, and the log of the remote calls issued so far, each with whether it
  was fulfilled (\<open>True\<close>) or rejected (\<open>False\<close>).
\<close>

record 's world =
  objects :: "CreateLinkOptions list"
  server :: 's
  log :: "(remote_call \<times> bool) list"

definition new_object :: "CreateLinkOptions \<Rightarrow> 's world \<Rightarrow> addr \<times> 's world" where
  "new_object v w = (length (objects w), w\<lparr>objects := objects w @ [v]\<rparr>)"

fun fulfilled :: "js_value + 'r \<Rightarrow> bool" where
  "fulfilled (Inl e) = False"
| "fulfilled (Inr r) = True"

text \<open>\<open>await f(...)\<close>: one remote call, recorded in the log with its outcome.\<close>

definition await :: "remote_call \<Rightarrow> ('s, 'r) remote \<Rightarrow> 's world \<Rightarrow> (js_value + 'r) \<times> 's world" where
  "await c f w =
     (case f (server w) of
        (r, s') \<Rightarrow> (r, w\<lparr>server := s', log := log w @ [(c, fulfilled r)]\<rparr>))"

subsection \<open>createLink\<close>

text \<open>Step 2: \<open>if (options.toll) await this.links.postLinksByLinkUuidTolls(...)\<close>.\<close>

definition create_toll ::
    "'s LinksApi_methods \<Rightarrow> addr \<Rightarrow> string \<Rightarrow> 's world \<Rightarrow> (js_value + unit) \<times> 's world" where
  "create_toll this_links options linkUuid w =
     (case toll (objects w ! options) of
        None \<Rightarrow> (Inr (), w)
      | Some t \<Rightarrow>
          await (Call_postLinksByLinkUuidTolls linkUuid t)
            (postLinksByLinkUuidTolls this_links linkUuid t) w)"

text \<open>Step 3: \<open>if (options.resource) await this.links.postLinksByLinkUuidResources(...)\<close>.\<close>

definition create_resource ::
    "'s LinksApi_methods \<Rightarrow> addr \<Rightarrow> string \<Rightarrow> 's world \<Rightarrow> (js_value + unit) \<times> 's world" where
  "create_resource this_links options linkUuid w =
     (case resource (objects w ! options) of
        None \<Rightarrow> (Inr (), w)
      | Some r \<Rightarrow>
          await (Call_postLinksByLinkUuidResources linkUuid r)
            (postLinksByLinkUuidResources this_links linkUuid r) w)"

text \<open>
  The loop of step 4, \<open>for (const action of options.actions) await ...\<close>: a rejected call
  leaves the loop (and the \<open>try\<close> block) at once.
\<close>

fun for_actions ::
    "'s LinksApi_methods \<Rightarrow> string \<Rightarrow> PostLinksByLinkUuidActionsRequest list \<Rightarrow> 's world
       \<Rightarrow> (js_value + unit) \<times> 's world" where
  "for_actions this_links linkUuid [] w = (Inr (), w)"
| "for_actions this_links linkUuid (action # rest) w =
     (case await (Call_postLinksByLinkUuidActions linkUuid action)
             (postLinksByLinkUuidActions this_links linkUuid action) w of
        (Inl e, w') \<Rightarrow> (Inl e, w')
      | (Inr u, w') \<Rightarrow> for_actions this_links linkUuid rest w')"

text \<open>Step 4: \<open>if (options.actions && options.actions.length > 0) for ...\<close>.\<close>

definition create_actions ::
    "'s LinksApi_methods \<Rightarrow> addr \<Rightarrow> string \<Rightarrow> 's world \<Rightarrow> (js_value + unit) \<times> 's world" where
  "create_actions this_links options linkUuid w =
     (case actions (objects w ! options) of
        None \<Rightarrow> (Inr (), w)
      | Some as \<Rightarrow>
          if length as > 0 then for_actions this_links linkUuid as w else (Inr (), w))"

text \<open>Steps 2 to 5, once \<open>linkUuid\<close> is known; the last call is the read-back.\<close>

definition after_creation ::
    "'s LinksApi_methods \<Rightarrow> addr \<Rightarrow> string \<Rightarrow> 's world
       \<Rightarrow> (js_value + PostLinks201Response) \<times> 's world" where
  "after_creation this_links options linkUuid w2 =
     (case create_toll this_links options linkUuid w2 of
        (Inl e, w3) \<Rightarrow> (Inl e, w3)
      | (Inr u, w3) \<Rightarrow>
     (case create_resource this_links options linkUuid w3 of
        (Inl e, w4) \<Rightarrow> (Inl e, w4)
      | (Inr u, w4) \<Rightarrow>
     (case create_actions this_links options linkUuid w4 of
        (Inl e, w5) \<Rightarrow> (Inl e, w5)
      | (Inr u, w5) \<Rightarrow>
          await (Call_getLinksByUuidOrAlias linkUuid)
            (getLinksByUuidOrAlias this_links linkUuid) w5)))"

text \<open>
  The request of step 1, \<open>{...options, toll: undefined, resource: undefined,
  actions: undefined}\<close>: a new object with the own properties of \<open>options\<close> and the three
  sub-resource properties overwritten.
\<close>

definition without_sub_resources :: "CreateLinkOptions \<Rightarrow> CreateLinkOptions" where
  "without_sub_resources options = options\<lparr>toll := None, resource := None, actions := None\<rparr>"

text \<open>
  The body of the \<open>try\<close> block. \<open>!createdLink.uuid\<close> holds when the property is
  \<open>undefined\<close> or the empty string.
\<close>

definition try_block ::
    "'s LinksApi_methods \<Rightarrow> addr \<Rightarrow> 's world \<Rightarrow> (js_value + PostLinks201Response) \<times> 's world" where
  "try_block this_links options w0 =
     (case new_object (without_sub_resources (objects w0 ! options)) w0 of
        (postLinksRequest, w1) \<Rightarrow>
     (case await (Call_postLinks (objects w1 ! postLinksRequest))
             (postLinks this_links (objects w1 ! postLinksRequest)) w1 of
        (Inl e, w2) \<Rightarrow> (Inl e, w2)
      | (Inr createdLink, w2) \<Rightarrow>
          (case uuid createdLink of
             None \<Rightarrow> (Inl (new_Error ''Failed to create link: no UUID returned''), w2)
           | Some linkUuid \<Rightarrow>
               if linkUuid = []
               then (Inl (new_Error ''Failed to create link: no UUID returned''), w2)
               else after_creation this_links options linkUuid w2)))"

text \<open>
  The \<open>catch\<close> clause: \<open>throw new Error(`Failed to create link: ${error instanceof Error ?
  error.message : "Unknown error"}`)\<close>.
\<close>

definition catch_clause :: "js_value \<Rightarrow> js_value" where
  "catch_clause error =
     new_Error (''Failed to create link: '' @
                (if instanceof_Error error then message error else ''Unknown error''))"

text \<open>
  \<open>async createLink(options)\<close>: \<open>options\<close> is the address of the caller's object,
  \<open>this_links\<close> is \<open>this.links\<close>. \<open>Inl\<close> is the rejection of the returned promise.
\<close>

definition createLink ::
    "'s LinksApi_methods \<Rightarrow> addr \<Rightarrow> 's world \<Rightarrow> (js_value + PostLinks201Response) \<times> 's world" where
  "createLink this_links options w =
     (case try_block this_links options w of
        (Inl error, w') \<Rightarrow> (Inl (catch_clause error), w')
      | (Inr completeLink, w') \<Rightarrow> (Inr completeLink, w'))"

text \<open>The calls a run has issued: what it added to the log.\<close>

definition issued :: "'s world \<Rightarrow> 's world \<Rightarrow> (remote_call \<times> bool) list" where
  "issued w w' = drop (length (log w)) (log w')"

fun is_postLinks :: "remote_call \<Rightarrow> bool" where
  "is_postLinks (Call_postLinks r) = True"
| "is_postLinks c = False"

fun is_toll_call :: "remote_call \<Rightarrow> bool" where
  "is_toll_call (Call_postLinksByLinkUuidTolls u t) = True"
| "is_toll_call c = False"

fun is_resource_call :: "remote_call \<Rightarrow> bool" where
  "is_resource_call (Call_postLinksByLinkUuidResources u r) = True"
| "is_resource_call c = False"

fun is_action_call :: "remote_call \<Rightarrow> bool" where
  "is_action_call (Call_postLinksByLinkUuidActions u a) = True"
| "is_action_call c = False"

fun is_read_back :: "remote_call \<Rightarrow> bool" where
  "is_read_back (Call_getLinksByUuidOrAlias u) = True"
| "is_read_back c = False"

fun is_delete :: "remote_call \<Rightarrow> bool" where
  "is_delete (Call_deleteLinksByUuid u) = True"
| "is_delete c = False"

definition count_calls :: "(remote_call \<Rightarrow> bool) \<Rightarrow> (remote_call \<times> bool) list \<Rightarrow> nat" where
  "count_calls P l = length (filter P (map fst l))"

text \<open>The action-creation calls of a log, in the order they were issued.\<close>

definition action_calls :: "(remote_call \<times> bool) list \<Rightarrow> (remote_call \<times> bool) list" where
  "action_calls l = filter (\<lambda>e. is_action_call (fst e)) l"

text \<open>The actions of an options object: none when the property is \<open>undefined\<close>.\<close>

definition supplied_actions :: "CreateLinkOptions \<Rightarrow> PostLinksByLinkUuidActionsRequest list" where
  "supplied_actions options = (case actions options of None \<Rightarrow> [] | Some as \<Rightarrow> as)"

subsection \<open>Test doubles\<close>

text \<open>
  A scripted Links sub-client for the concrete runs below. The state of its service is
  the number of fulfilled calls. A call for which \<open>rejects\<close> gives a value is rejected
  with it; otherwise link creation answers with the uuid \<open>u\<close>, and the read-back answers
  with the link of the uuid it was asked for.
\<close>

definition scripted ::
    "string option \<Rightarrow> (remote_call \<Rightarrow> js_value option) \<Rightarrow> nat LinksApi_methods" where
  "scripted u rejects =
     \<lparr>postLinks = (\<lambda>r s. case rejects (Call_postLinks r) of
         Some e \<Rightarrow> (Inl e, s) | None \<Rightarrow> (Inr \<lparr>uuid = u, url = None\<rparr>, Suc s)),
      postLinksByLinkUuidTolls = (\<lambda>k t s. case rejects (Call_postLinksByLinkUuidTolls k t) of
         Some e \<Rightarrow> (Inl e, s) | None \<Rightarrow> (Inr (), Suc s)),
      postLinksByLinkUuidResources = (\<lambda>k r s. case rejects (Call_postLinksByLinkUuidResources k r) of
         Some e \<Rightarrow> (Inl e, s) | None \<Rightarrow> (Inr (), Suc s)),
      postLinksByLinkUuidActions = (\<lambda>k a s. case rejects (Call_postLinksByLinkUuidActions k a) of
         Some e \<Rightarrow> (Inl e, s) | None \<Rightarrow> (Inr (), Suc s)),
      getLinksByUuidOrAlias = (\<lambda>k s. case rejects (Call_getLinksByUuidOrAlias k) of
         Some e \<Rightarrow> (Inl e, s)
       | None \<Rightarrow> (Inr \<lparr>uuid = Some k, url = Some (''https://gatepay.cloud/'' @ k)\<rparr>, Suc s))\<rparr>"

definition simple_options :: CreateLinkOptions where
  "simple_options =
     \<lparr>name = ''My Link'', linkAlias = Some ''my-link'', description = None,
      status = Some ''active'', type = Some ''permanent'',
      toll = None, resource = None, actions = None\<rparr>"

definition usdc_toll :: PostLinksByLinkUuidTollsRequest where
  "usdc_toll =
     \<lparr>tollPaymentRequirements =
        [\<lparr>assetNetwork = ''base'',
          assetAddress = ''0x833589fCD6eDb6E08f4c7C32D4f71b54bdA02913'',
          amount = ''1000000'',
          destinationAddress = ''0x742d35Cc6634C0532925a3b8D098C6dd9f67e235''\<rparr>]\<rparr>"

definition action_A :: PostLinksByLinkUuidActionsRequest where
  "action_A = Action ''callback'' ''payment_success'' ''https://example.com/webhook'' ''POST''"

definition action_B :: PostLinksByLinkUuidActionsRequest where
  "action_B = Action ''callback'' ''link_accessed'' ''https://example.com/accessed'' ''POST''"

definition complex_options :: CreateLinkOptions where
  "complex_options =
     simple_options\<lparr>toll := Some usdc_toll,
                    resource := Some (Resource ''redirect'' (Url_data ''https://example.com/premium'')),
                    actions := Some [action_A, action_B]\<rparr>"

definition start :: "CreateLinkOptions \<Rightarrow> nat world" where
  "start options = \<lparr>objects = [options], server = 0, log = []\<rparr>"

definition unauthorized :: js_value where
  "unauthorized = JsError ''Response returned an error code'' (Some 401) None"

text \<open>
  Five scripts: every call is fulfilled; the toll call is rejected with a 401; the call for
  \<open>action_A\<close> is rejected with a value that is no \<open>Error\<close>; link creation is
  rejected; link creation answers without a uuid.
\<close>

definition always_ok :: "nat LinksApi_methods" where
  "always_ok = scripted (Some ''u1'') (\<lambda>c. None)"

definition toll_rejecting :: "nat LinksApi_methods" where
  "toll_rejecting = scripted (Some ''u1'') (\<lambda>c. if is_toll_call c then Some unauthorized else None)"

definition action_A_rejecting :: "nat LinksApi_methods" where
  "action_A_rejecting =
     scripted (Some ''u1'')
       (\<lambda>c. if c = Call_postLinksByLinkUuidActions ''u1'' action_A then Some JsOther else None)"

definition creation_rejecting :: "nat LinksApi_methods" where
  "creation_rejecting = scripted (Some ''u1'') (\<lambda>c. if is_postLinks c then Some unauthorized else None)"

definition no_uuid :: "nat LinksApi_methods" where
  "no_uuid = scripted None (\<lambda>c. None)"

text \<open>
  A sixth script, for a service whose read-back answers with another link than the one
  it was asked for.
\<close>

definition misdirected :: "nat LinksApi_methods" where
  "misdirected =
     always_ok\<lparr>getLinksByUuidOrAlias :=
       (\<lambda>k s. (Inr \<lparr>uuid = Some ''other'', url = None\<rparr>, Suc s))\<rparr>"

lemmas run_defs =
  createLink_def try_block_def new_object_def await_def after_creation_def create_toll_def
  create_resource_def create_actions_def catch_clause_def new_Error_def
  without_sub_resources_def scripted_def start_def simple_options_def complex_options_def
  issued_def count_calls_def action_calls_def supplied_actions_def
  usdc_toll_def action_A_def action_B_def unauthorized_def
  always_ok_def toll_rejecting_def action_A_rejecting_def creation_rejecting_def no_uuid_def
  misdirected_def

section \<open>Properties of the client\<close>

subsection \<open>The constructor and the update methods, written out\<close>

lemma bind_sub_clients_eq:
  "bind_sub_clients c h =
     (\<lparr>configuration = c, account = length (sub_clients h),
       links = Suc (length (sub_clients h)), networks = Suc (Suc (length (sub_clients h)))\<rparr>,
      h\<lparr>sub_clients := sub_clients h @ [AccountApi c, LinksApi c, NetworksApi c]\<rparr>)"
  by (simp add: bind_sub_clients_def new_sub_client_def)

lemma new_Gatepay_eq:
  "new_Gatepay options h =
     (\<lparr>configuration = length (configurations h), account = length (sub_clients h),
       links = Suc (length (sub_clients h)), networks = Suc (Suc (length (sub_clients h)))\<rparr>,
      \<lparr>configurations = configurations h @
          [\<lparr>Configuration.basePath = basePath_or_default (GatepayClientOptions.basePath options),
            accessToken = apiToken options\<rparr>],
       sub_clients = sub_clients h @
          [AccountApi (length (configurations h)), LinksApi (length (configurations h)),
           NetworksApi (length (configurations h))]\<rparr>)"
  by (simp add: new_Gatepay_def new_Configuration_def bind_sub_clients_eq)

lemma updateApiToken_eq:
  "updateApiToken t (g, h) =
     (\<lparr>configuration = length (configurations h), account = length (sub_clients h),
       links = Suc (length (sub_clients h)), networks = Suc (Suc (length (sub_clients h)))\<rparr>,
      \<lparr>configurations = configurations h @
          [\<lparr>Configuration.basePath = Configuration.basePath (configurations h ! configuration g), accessToken = t\<rparr>],
       sub_clients = sub_clients h @
          [AccountApi (length (configurations h)), LinksApi (length (configurations h)),
           NetworksApi (length (configurations h))]\<rparr>)"
  by (simp add: updateApiToken_def new_Configuration_def bind_sub_clients_eq)

lemma updateBasePath_eq:
  "updateBasePath p (g, h) =
     (\<lparr>configuration = length (configurations h), account = length (sub_clients h),
       links = Suc (length (sub_clients h)), networks = Suc (Suc (length (sub_clients h)))\<rparr>,
      \<lparr>configurations = configurations h @
          [\<lparr>Configuration.basePath = p, accessToken = accessToken (configurations h ! configuration g)\<rparr>],
       sub_clients = sub_clients h @
          [AccountApi (length (configurations h)), LinksApi (length (configurations h)),
           NetworksApi (length (configurations h))]\<rparr>)"
  by (simp add: updateBasePath_def new_Configuration_def bind_sub_clients_eq)

lemma basePath_or_default_non_empty: "basePath_or_default b \<noteq> []"
  by (simp add: basePath_or_default_def default_basePath_def split: option.split)

text \<open>An update with a non-empty argument keeps every allocated \<open>Configuration\<close> non-empty.\<close>

lemma non_empty_invariant_step:
  assumes "configuration g < length (configurations h)"
      and "n \<le> configuration g"
      and "list_all non_empty_fields (drop n (configurations h))"
      and "argument u \<noteq> []"
  shows "case apply_update u (g, h) of (g', h') \<Rightarrow>
           configuration g' < length (configurations h') \<and> n \<le> configuration g'
         \<and> list_all non_empty_fields (drop n (configurations h'))"
proof -
  from assms(1-3) have cur: "non_empty_fields (configurations h ! configuration g)"
    by (auto simp: list_all_length dest!: spec [of _ "configuration g - n"])
  show ?thesis
    using assms cur
    by (cases u) (auto simp: updateApiToken_eq updateBasePath_eq non_empty_fields_def)
qed

lemma non_empty_invariant_run:
  assumes "configuration (fst gh) < length (configurations (snd gh))"
      and "n \<le> configuration (fst gh)"
      and "list_all non_empty_fields (drop n (configurations (snd gh)))"
      and "\<forall>u \<in> set us. argument u \<noteq> []"
  shows "configuration (fst (apply_updates us gh)) < length (configurations (snd (apply_updates us gh)))
       \<and> n \<le> configuration (fst (apply_updates us gh))
       \<and> list_all non_empty_fields (drop n (configurations (snd (apply_updates us gh))))"
  using assms
proof (induction us arbitrary: gh)
  case Nil
  then show ?case by simp
next
  case (Cons u us)
  obtain g h where gh: "gh = (g, h)" by (cases gh)
  obtain g' h' where st: "apply_update u (g, h) = (g', h')" by (cases "apply_update u (g, h)")
  from Cons.prems gh non_empty_invariant_step [of g h n u] st
  have "configuration g' < length (configurations h') \<and> n \<le> configuration g'
         \<and> list_all non_empty_fields (drop n (configurations h'))"
    by simp
  with Cons.IH [of "(g', h')"] Cons.prems(4) gh st show ?case
    by simp
qed

subsection \<open>Logs and frames of the steps of createLink\<close>

lemma await_eq:
  "f (server w) = (r, s') \<Longrightarrow>
     await c f w = (r, w\<lparr>server := s', log := log w @ [(c, fulfilled r)]\<rparr>)"
  by (simp add: await_def)

lemma await_frame:
  "await c f w = (r, w') \<Longrightarrow> objects w' = objects w \<and> log w' = log w @ [(c, fulfilled r)]"
  by (auto simp: await_def split: prod.splits)

lemma try_block_request:
  "try_block this_links options w =
     (case await (Call_postLinks (without_sub_resources (objects w ! options)))
             (postLinks this_links (without_sub_resources (objects w ! options)))
             (w\<lparr>objects := objects w @ [without_sub_resources (objects w ! options)]\<rparr>) of
        (Inl e, w2) \<Rightarrow> (Inl e, w2)
      | (Inr createdLink, w2) \<Rightarrow>
          (case uuid createdLink of
             None \<Rightarrow> (Inl (new_Error ''Failed to create link: no UUID returned''), w2)
           | Some linkUuid \<Rightarrow>
               if linkUuid = []
               then (Inl (new_Error ''Failed to create link: no UUID returned''), w2)
               else after_creation this_links options linkUuid w2))"
  by (simp add: try_block_def new_object_def)

lemma issued_append [simp]: "log w' = log w @ l \<Longrightarrow> issued w w' = l"
  by (simp add: issued_def)

lemma list_all_butlast: "list_all P l \<Longrightarrow> list_all P (butlast l)"
  by (auto simp: list_all_iff dest: in_set_butlastD)

lemma butlast_after_fulfilled:
  "list_all snd a \<Longrightarrow> list_all snd (butlast b) \<Longrightarrow> list_all snd (butlast (a @ b))"
  by (simp add: butlast_append list_all_butlast)

lemma action_calls_append [simp]: "action_calls (a @ b) = action_calls a @ action_calls b"
  by (simp add: action_calls_def)

lemma butlast_filter:
  "list_all P (butlast l) \<Longrightarrow> list_all P (butlast (filter Q l))"
  by (cases l rule: rev_cases) (auto simp: list_all_iff dest!: in_set_butlastD)

lemma earlier_fulfilled:
  "list_all snd (butlast l) \<Longrightarrow> i < j \<Longrightarrow> j < length l \<Longrightarrow> snd (l ! i)"
  by (cases l rule: rev_cases) (auto simp: list_all_length nth_append)

lemma for_actions_frame:
  "for_actions this_links u as w = (r, w') \<Longrightarrow> objects w' = objects w"
proof (induction as arbitrary: w)
  case Nil
  then show ?case by simp
next
  case (Cons a as)
  then show ?case
    by (auto split: prod.splits sum.splits dest!: await_frame)
qed

lemma create_actions_frame:
  "create_actions this_links options u w = (r, w') \<Longrightarrow> objects w' = objects w"
  by (auto simp: create_actions_def split: option.splits if_splits dest!: for_actions_frame)

lemma for_actions_log:
  "for_actions this_links u as w = (r, w') \<Longrightarrow>
     \<exists>ext n. log w' = log w @ ext \<and> n \<le> length as
       \<and> action_calls ext = ext
       \<and> map fst ext = map (Call_postLinksByLinkUuidActions u) (take n as)
       \<and> list_all snd (butlast ext) \<and> (fulfilled r \<longrightarrow> list_all snd ext)"
proof (induction as arbitrary: w)
  case Nil
  then show ?case by (simp add: action_calls_def)
next
  case (Cons a as)
  let ?c = "Call_postLinksByLinkUuidActions u a"
  obtain r1 w1 where st: "await ?c (postLinksByLinkUuidActions this_links u a) w = (r1, w1)"
    by force
  then have l1: "log w1 = log w @ [(?c, fulfilled r1)]"
    by (simp add: await_frame)
  show ?case
  proof (cases r1)
    case (Inl e)
    with Cons.prems st have "r = Inl e" and "w' = w1" by simp_all
    with l1 Inl show ?thesis
      by (intro exI [of _ "[(?c, False)]"] exI [of _ "Suc 0"]) (simp add: action_calls_def)
  next
    case (Inr v)
    with Cons.prems st have "for_actions this_links u as w1 = (r, w')" by simp
    from Cons.IH [OF this] obtain ext n where
      e: "log w' = log w1 @ ext" "n \<le> length as" "action_calls ext = ext"
         "map fst ext = map (Call_postLinksByLinkUuidActions u) (take n as)"
         "list_all snd (butlast ext)" "fulfilled r \<longrightarrow> list_all snd ext"
      by blast
    from e l1 Inr show ?thesis
      by (intro exI [of _ "(?c, True) # ext"] exI [of _ "Suc n"])
         (auto simp: action_calls_def)
  qed
qed

lemma create_toll_log:
  assumes "create_toll this_links options u w = (r, w')"
  shows "objects w' = objects w"
    and "\<exists>ext. log w' = log w @ ext \<and> action_calls ext = []
           \<and> list_all snd (butlast ext) \<and> (fulfilled r \<longrightarrow> list_all snd ext)"
  using assms
  by (auto simp: create_toll_def action_calls_def split: option.splits dest!: await_frame)

lemma create_resource_log:
  assumes "create_resource this_links options u w = (r, w')"
  shows "objects w' = objects w"
    and "\<exists>ext. log w' = log w @ ext \<and> action_calls ext = []
           \<and> list_all snd (butlast ext) \<and> (fulfilled r \<longrightarrow> list_all snd ext)"
  using assms
  by (auto simp: create_resource_def action_calls_def split: option.splits dest!: await_frame)

lemma create_actions_log:
  assumes "create_actions this_links options u w = (r, w')"
  shows "\<exists>ext n. log w' = log w @ ext \<and> n \<le> length (supplied_actions (objects w ! options))
           \<and> map fst (action_calls ext) =
               map (Call_postLinksByLinkUuidActions u) (take n (supplied_actions (objects w ! options)))
           \<and> list_all snd (butlast ext) \<and> (fulfilled r \<longrightarrow> list_all snd ext)"
proof (cases "actions (objects w ! options)")
  case None
  with assms show ?thesis
    by (auto simp: create_actions_def action_calls_def)
next
  case (Some as)
  show ?thesis
  proof (cases "as = []")
    case True
    with Some assms show ?thesis
      by (auto simp: create_actions_def action_calls_def)
  next
    case False
    with Some assms have "for_actions this_links u as w = (r, w')"
      by (simp add: create_actions_def)
    from for_actions_log [OF this] Some show ?thesis
      by (auto simp: supplied_actions_def)
  qed
qed

lemma after_creation_log:
  assumes "after_creation this_links options u w = (r, w')"
  shows "objects w' = objects w"
    and "\<exists>ext n. log w' = log w @ ext \<and> n \<le> length (supplied_actions (objects w ! options))
           \<and> map fst (action_calls ext) =
               map (Call_postLinksByLinkUuidActions u) (take n (supplied_actions (objects w ! options)))
           \<and> list_all snd (butlast ext)"
proof -
  let ?as = "supplied_actions (objects w ! options)"
  let ?goal = "\<exists>ext n. log w' = log w @ ext \<and> n \<le> length ?as
           \<and> map fst (action_calls ext) = map (Call_postLinksByLinkUuidActions u) (take n ?as)
           \<and> list_all snd (butlast ext)"
  obtain r1 w3 where s1: "create_toll this_links options u w = (r1, w3)" by force
  from create_toll_log [OF s1] obtain e1 where
    o1: "objects w3 = objects w" and
    e1: "log w3 = log w @ e1" "action_calls e1 = []" "list_all snd (butlast e1)"
        "fulfilled r1 \<longrightarrow> list_all snd e1"
    by blast
  have "objects w' = objects w \<and> ?goal"
  proof (cases r1)
    case (Inl e)
    with assms s1 have "w' = w3" by (simp add: after_creation_def)
    with o1 e1 show ?thesis
      by (auto intro!: exI [of _ e1] exI [of _ 0])
  next
    case r1: (Inr v1)
    obtain r2 w4 where s2: "create_resource this_links options u w3 = (r2, w4)" by force
    from create_resource_log [OF s2] obtain e2 where
      o2: "objects w4 = objects w3" and
      e2: "log w4 = log w3 @ e2" "action_calls e2 = []" "list_all snd (butlast e2)"
          "fulfilled r2 \<longrightarrow> list_all snd e2"
      by blast
    show ?thesis
    proof (cases r2)
      case (Inl e)
      with assms s1 s2 r1 have "w' = w4" by (simp add: after_creation_def)
      with o1 o2 e1 e2 r1 show ?thesis
        by (auto intro!: exI [of _ "e1 @ e2"] exI [of _ 0] butlast_after_fulfilled)
    next
      case r2: (Inr v2)
      obtain r3 w5 where s3: "create_actions this_links options u w4 = (r3, w5)" by force
      from create_actions_log [OF s3] o1 o2 obtain e3 n where
        e3: "log w5 = log w4 @ e3" "n \<le> length ?as"
            "map fst (action_calls e3) = map (Call_postLinksByLinkUuidActions u) (take n ?as)"
            "list_all snd (butlast e3)" "fulfilled r3 \<longrightarrow> list_all snd e3"
        by auto
      from s3 have o3: "objects w5 = objects w4"
        by (rule create_actions_frame)
      show ?thesis
      proof (cases r3)
        case (Inl e)
        with assms s1 s2 s3 r1 r2 have "w' = w5" by (simp add: after_creation_def)
        with o1 o2 o3 e1 e2 e3 r1 r2 show ?thesis
          by (auto intro!: exI [of _ "e1 @ e2 @ e3"] exI [of _ n] butlast_after_fulfilled)
      next
        case r3: (Inr v3)
        let ?c = "Call_getLinksByUuidOrAlias u"
        from assms s1 s2 s3 r1 r2 r3
        have s4: "await ?c (getLinksByUuidOrAlias this_links u) w5 = (r, w')"
          by (simp add: after_creation_def)
        from await_frame [OF s4] have
          o4: "objects w' = objects w5" and e4: "log w' = log w5 @ [(?c, fulfilled r)]"
          by simp_all
        from o1 o2 o3 o4 e1 e2 e3 e4 r1 r2 r3 show ?thesis
          by (auto intro!: exI [of _ "e1 @ e2 @ e3 @ [(?c, fulfilled r)]"] exI [of _ n]
                butlast_after_fulfilled simp: action_calls_def)
      qed
    qed
  qed
  then show "objects w' = objects w" and ?goal by simp_all
qed

lemma try_block_log:
  assumes "try_block this_links options w = (r, w')" and "options < length (objects w)"
  shows "objects w' = objects w @ [without_sub_resources (objects w ! options)]"
    and "\<exists>ok rest u n. log w' = log w @
            (Call_postLinks (without_sub_resources (objects w ! options)), ok) # rest
          \<and> n \<le> length (supplied_actions (objects w ! options))
          \<and> map fst (action_calls rest) =
               map (Call_postLinksByLinkUuidActions u) (take n (supplied_actions (objects w ! options)))
          \<and> list_all snd (butlast ((Call_postLinks (without_sub_resources (objects w ! options)), ok) # rest))"
proof -
  let ?req = "without_sub_resources (objects w ! options)"
  let ?w1 = "w\<lparr>objects := objects w @ [?req]\<rparr>"
  let ?as = "supplied_actions (objects w ! options)"
  let ?goal = "\<exists>ok rest u n. log w' = log w @ (Call_postLinks ?req, ok) # rest
          \<and> n \<le> length ?as
          \<and> map fst (action_calls rest) = map (Call_postLinksByLinkUuidActions u) (take n ?as)
          \<and> list_all snd (butlast ((Call_postLinks ?req, ok) # rest))"
  obtain r1 w2 where s1: "await (Call_postLinks ?req) (postLinks this_links ?req) ?w1 = (r1, w2)"
    by force
  from await_frame [OF s1] have
    o2: "objects w2 = objects w @ [?req]" and l2: "log w2 = log w @ [(Call_postLinks ?req, fulfilled r1)]"
    by simp_all
  have stop: "objects w' = objects w @ [?req] \<and> ?goal" if "w' = w2"
    using that o2 l2
    by (auto intro!: exI [of _ "fulfilled r1"] exI [of _ "[]"] exI [of _ 0] simp: action_calls_def)
  have "objects w' = objects w @ [?req] \<and> ?goal"
  proof (cases r1)
    case (Inl e)
    with assms(1) s1 have "w' = w2" by (simp add: try_block_request)
    then show ?thesis by (rule stop)
  next
    case r1: (Inr createdLink)
    show ?thesis
    proof (cases "uuid createdLink = None \<or> uuid createdLink = Some []")
      case True
      with assms(1) s1 r1 have "w' = w2" by (auto simp: try_block_request)
      then show ?thesis by (rule stop)
    next
      case False
      then obtain u where u: "uuid createdLink = Some u" "u \<noteq> []" by auto
      with assms(1) s1 r1 have s2: "after_creation this_links options u w2 = (r, w')"
        by (simp add: try_block_request)
      from assms(2) o2 have same: "objects w2 ! options = objects w ! options"
        by (simp add: nth_append)
      from after_creation_log [OF s2] same obtain ext n where
        "objects w' = objects w2" "log w' = log w2 @ ext" "n \<le> length ?as"
        "map fst (action_calls ext) = map (Call_postLinksByLinkUuidActions u) (take n ?as)"
        "list_all snd (butlast ext)"
        by auto
      with o2 l2 r1 show ?thesis
        by (auto intro!: exI [of _ True] exI [of _ ext] exI [of _ u] exI [of _ n])
    qed
  qed
  then show "objects w' = objects w @ [?req]" and ?goal by simp_all
qed

text \<open>
  The same steps once more, with what decides how far a run gets: a fulfilled step has
  issued all its calls, a rejected step ends with the rejected call.
\<close>

lemma count_calls_append [simp]: "count_calls P (a @ b) = count_calls P a + count_calls P b"
  by (simp add: count_calls_def)

lemma await_answer:
  "await c f w = (r, w') \<Longrightarrow> f (server w) = (r, server w')"
  by (auto simp: await_def split: prod.splits)

lemma for_actions_run:
  "for_actions this_links u as w = (r, w') \<Longrightarrow>
     \<exists>ext n. log w' = log w @ ext \<and> n \<le> length as
       \<and> action_calls ext = ext
       \<and> count_calls is_read_back ext = 0
       \<and> map fst ext = map (Call_postLinksByLinkUuidActions u) (take n as)
       \<and> list_all snd (butlast ext)
       \<and> (fulfilled r \<longrightarrow> list_all snd ext \<and> n = length as)
       \<and> (\<not> fulfilled r \<longrightarrow>
             0 < n \<and> ext \<noteq> [] \<and> last ext = (Call_postLinksByLinkUuidActions u (as ! (n - 1)), False))"
proof (induction as arbitrary: w)
  case Nil
  then show ?case by (auto simp: action_calls_def count_calls_def)
next
  case (Cons a as)
  let ?c = "Call_postLinksByLinkUuidActions u a"
  obtain r1 w1 where st: "await ?c (postLinksByLinkUuidActions this_links u a) w = (r1, w1)"
    by force
  then have l1: "log w1 = log w @ [(?c, fulfilled r1)]"
    by (simp add: await_frame)
  show ?case
  proof (cases r1)
    case (Inl e)
    with Cons.prems st have "r = Inl e" and "w' = w1" by simp_all
    with l1 Inl show ?thesis
      by (intro exI [of _ "[(?c, False)]"] exI [of _ "Suc 0"])
         (simp add: action_calls_def count_calls_def)
  next
    case (Inr v)
    with Cons.prems st have "for_actions this_links u as w1 = (r, w')" by simp
    from Cons.IH [OF this] obtain ext n where
      e: "log w' = log w1 @ ext" "n \<le> length as" "action_calls ext = ext"
         "count_calls is_read_back ext = 0"
         "map fst ext = map (Call_postLinksByLinkUuidActions u) (take n as)"
         "list_all snd (butlast ext)" "fulfilled r \<longrightarrow> list_all snd ext \<and> n = length as"
         "\<not> fulfilled r \<longrightarrow>
             0 < n \<and> ext \<noteq> [] \<and> last ext = (Call_postLinksByLinkUuidActions u (as ! (n - 1)), False)"
      by blast
    from e l1 Inr show ?thesis
      by (intro exI [of _ "(?c, True) # ext"] exI [of _ "Suc n"])
         (auto simp: action_calls_def count_calls_def nth_Cons')
  qed
qed

lemma create_toll_run:
  assumes "create_toll this_links options u w = (r, w')"
  shows "\<exists>ext. log w' = log w @ ext \<and> action_calls ext = []
           \<and> count_calls is_read_back ext = 0
           \<and> list_all snd (butlast ext) \<and> (fulfilled r \<longrightarrow> list_all snd ext)
           \<and> (\<not> fulfilled r \<longrightarrow> ext \<noteq> [] \<and> \<not> snd (last ext))"
  using assms
  by (auto simp: create_toll_def action_calls_def count_calls_def split: option.splits
      dest!: await_frame)

lemma create_resource_run:
  assumes "create_resource this_links options u w = (r, w')"
  shows "\<exists>ext. log w' = log w @ ext \<and> action_calls ext = []
           \<and> count_calls is_read_back ext = 0
           \<and> list_all snd (butlast ext) \<and> (fulfilled r \<longrightarrow> list_all snd ext)
           \<and> (\<not> fulfilled r \<longrightarrow> ext \<noteq> [] \<and> \<not> snd (last ext))"
  using assms
  by (auto simp: create_resource_def action_calls_def count_calls_def split: option.splits
      dest!: await_frame)

lemma create_actions_run:
  assumes "create_actions this_links options u w = (r, w')"
  shows "\<exists>ext n. log w' = log w @ ext \<and> n \<le> length (supplied_actions (objects w ! options))
           \<and> count_calls is_read_back ext = 0
           \<and> map fst (action_calls ext) =
               map (Call_postLinksByLinkUuidActions u) (take n (supplied_actions (objects w ! options)))
           \<and> list_all snd (butlast ext)
           \<and> (fulfilled r \<longrightarrow> list_all snd ext \<and> n = length (supplied_actions (objects w ! options)))
           \<and> (\<not> fulfilled r \<longrightarrow> 0 < n \<and> ext \<noteq> [] \<and>
                 last ext = (Call_postLinksByLinkUuidActions u
                               (supplied_actions (objects w ! options) ! (n - 1)), False))"
proof (cases "actions (objects w ! options)")
  case None
  with assms show ?thesis
    by (auto simp: create_actions_def action_calls_def count_calls_def supplied_actions_def)
next
  case (Some as)
  show ?thesis
  proof (cases "as = []")
    case True
    with Some assms show ?thesis
      by (auto simp: create_actions_def action_calls_def count_calls_def supplied_actions_def)
  next
    case False
    with Some assms have "for_actions this_links u as w = (r, w')"
      by (simp add: create_actions_def)
    from for_actions_run [OF this] obtain ext n where
      e: "log w' = log w @ ext" "n \<le> length as" "action_calls ext = ext"
         "count_calls is_read_back ext = 0"
         "map fst ext = map (Call_postLinksByLinkUuidActions u) (take n as)"
         "list_all snd (butlast ext)" "fulfilled r \<longrightarrow> list_all snd ext \<and> n = length as"
         "\<not> fulfilled r \<longrightarrow>
             0 < n \<and> ext \<noteq> [] \<and> last ext = (Call_postLinksByLinkUuidActions u (as ! (n - 1)), False)"
      by blast
    from e Some show ?thesis
      by (intro exI [of _ ext] exI [of _ n]) (simp add: supplied_actions_def)
  qed
qed

lemma after_creation_run:
  assumes "after_creation this_links options u w = (r, w')"
  shows "\<exists>ext n. log w' = log w @ ext \<and> n \<le> length (supplied_actions (objects w ! options))
           \<and> map fst (action_calls ext) =
               map (Call_postLinksByLinkUuidActions u) (take n (supplied_actions (objects w ! options)))
           \<and> list_all snd (butlast ext)
           \<and> (fulfilled r \<longrightarrow> n = length (supplied_actions (objects w ! options)))
           \<and> (0 < count_calls is_read_back ext \<longrightarrow> n = length (supplied_actions (objects w ! options)))
           \<and> (\<not> fulfilled r \<longrightarrow> ext \<noteq> [] \<and> \<not> snd (last ext))
           \<and> (n < length (supplied_actions (objects w ! options)) \<and> 0 < n \<longrightarrow>
                 last ext = (Call_postLinksByLinkUuidActions u
                               (supplied_actions (objects w ! options) ! (n - 1)), False))"
proof -
  let ?as = "supplied_actions (objects w ! options)"
  obtain r1 w3 where s1: "create_toll this_links options u w = (r1, w3)" by force
  from create_toll_log(1) [OF s1] have o1: "objects w3 = objects w" .
  from create_toll_run [OF s1] obtain e1 where
    e1: "log w3 = log w @ e1" "action_calls e1 = []" "count_calls is_read_back e1 = 0"
        "list_all snd (butlast e1)" "fulfilled r1 \<longrightarrow> list_all snd e1"
        "\<not> fulfilled r1 \<longrightarrow> e1 \<noteq> [] \<and> \<not> snd (last e1)"
    by blast
  show ?thesis
  proof (cases r1)
    case (Inl e)
    with assms s1 have "w' = w3" "r = Inl e" by (simp_all add: after_creation_def)
    with e1 Inl show ?thesis
      by (intro exI [of _ e1] exI [of _ 0]) simp
  next
    case r1: (Inr v1)
    obtain r2 w4 where s2: "create_resource this_links options u w3 = (r2, w4)" by force
    from create_resource_log(1) [OF s2] have o2: "objects w4 = objects w3" .
    from create_resource_run [OF s2] obtain e2 where
      e2: "log w4 = log w3 @ e2" "action_calls e2 = []" "count_calls is_read_back e2 = 0"
          "list_all snd (butlast e2)" "fulfilled r2 \<longrightarrow> list_all snd e2"
          "\<not> fulfilled r2 \<longrightarrow> e2 \<noteq> [] \<and> \<not> snd (last e2)"
      by blast
    show ?thesis
    proof (cases r2)
      case (Inl e)
      with assms s1 s2 r1 have "w' = w4" "r = Inl e" by (simp_all add: after_creation_def)
      with e1 e2 r1 Inl show ?thesis
        by (intro exI [of _ "e1 @ e2"] exI [of _ 0]) (simp add: butlast_after_fulfilled)
    next
      case r2: (Inr v2)
      obtain r3 w5 where s3: "create_actions this_links options u w4 = (r3, w5)" by force
      from create_actions_run [OF s3] o1 o2 obtain e3 n where
        e3: "log w5 = log w4 @ e3" "n \<le> length ?as" "count_calls is_read_back e3 = 0"
            "map fst (action_calls e3) = map (Call_postLinksByLinkUuidActions u) (take n ?as)"
            "list_all snd (butlast e3)" "fulfilled r3 \<longrightarrow> list_all snd e3 \<and> n = length ?as"
            "\<not> fulfilled r3 \<longrightarrow> 0 < n \<and> e3 \<noteq> [] \<and>
                 last e3 = (Call_postLinksByLinkUuidActions u (?as ! (n - 1)), False)"
        by auto
      show ?thesis
      proof (cases r3)
        case (Inl e)
        with assms s1 s2 s3 r1 r2 have "w' = w5" "r = Inl e" by (simp_all add: after_creation_def)
        with e1 e2 e3 r1 r2 Inl show ?thesis
          by (intro exI [of _ "e1 @ e2 @ e3"] exI [of _ n]) (simp add: butlast_after_fulfilled)
      next
        case r3: (Inr v3)
        let ?c = "Call_getLinksByUuidOrAlias u"
        from assms s1 s2 s3 r1 r2 r3
        have s4: "await ?c (getLinksByUuidOrAlias this_links u) w5 = (r, w')"
          by (simp add: after_creation_def)
        from await_frame [OF s4] have e4: "log w' = log w5 @ [(?c, fulfilled r)]"
          by simp
        from e1 e2 e3 e4 r1 r2 r3 show ?thesis
          by (intro exI [of _ "e1 @ e2 @ e3 @ [(?c, fulfilled r)]"] exI [of _ n])
             (simp add: butlast_after_fulfilled action_calls_def)
      qed
    qed
  qed
qed

lemma try_block_run:
  assumes "try_block this_links options w = (r, w')" and "options < length (objects w)"
  shows "\<exists>ok rest u n.
            log w' = log w @ (Call_postLinks (without_sub_resources (objects w ! options)), ok) # rest
          \<and> n \<le> length (supplied_actions (objects w ! options))
          \<and> map fst (action_calls rest) =
               map (Call_postLinksByLinkUuidActions u) (take n (supplied_actions (objects w ! options)))
          \<and> list_all snd (butlast ((Call_postLinks (without_sub_resources (objects w ! options)), ok) # rest))
          \<and> (\<forall>c s1. postLinks this_links (without_sub_resources (objects w ! options)) (server w)
                         = (Inr c, s1) \<and> 0 < n \<longrightarrow> uuid c = Some u)
          \<and> (fulfilled r \<longrightarrow> n = length (supplied_actions (objects w ! options)))
          \<and> (0 < count_calls is_read_back rest \<longrightarrow> n = length (supplied_actions (objects w ! options)))
          \<and> (n < length (supplied_actions (objects w ! options)) \<and> 0 < n \<longrightarrow>
                last ((Call_postLinks (without_sub_resources (objects w ! options)), ok) # rest)
                  = (Call_postLinksByLinkUuidActions u
                       (supplied_actions (objects w ! options) ! (n - 1)), False))
          \<and> (\<not> fulfilled r \<longrightarrow>
                \<not> snd (last ((Call_postLinks (without_sub_resources (objects w ! options)), ok) # rest))
              \<or> (\<exists>c s1. postLinks this_links (without_sub_resources (objects w ! options)) (server w)
                           = (Inr c, s1) \<and> (uuid c = None \<or> uuid c = Some [])))"
proof -
  let ?req = "without_sub_resources (objects w ! options)"
  let ?w1 = "w\<lparr>objects := objects w @ [?req]\<rparr>"
  let ?as = "supplied_actions (objects w ! options)"
  obtain r1 w2 where s1: "await (Call_postLinks ?req) (postLinks this_links ?req) ?w1 = (r1, w2)"
    by force
  from await_frame [OF s1] have
    o2: "objects w2 = objects w @ [?req]" and l2: "log w2 = log w @ [(Call_postLinks ?req, fulfilled r1)]"
    by simp_all
  from await_answer [OF s1] have ans: "postLinks this_links ?req (server w) = (r1, server w2)"
    by simp
  show ?thesis
  proof (cases r1)
    case (Inl e)
    with assms(1) s1 have "w' = w2" "r = Inl e" by (simp_all add: try_block_request)
    with l2 Inl ans show ?thesis
      by (intro exI [of _ False] exI [of _ "[]"] exI [of _ "[]"] exI [of _ 0])
         (simp add: action_calls_def count_calls_def)
  next
    case r1: (Inr createdLink)
    show ?thesis
    proof (cases "uuid createdLink = None \<or> uuid createdLink = Some []")
      case True
      with assms(1) s1 r1 have "w' = w2" and "\<not> fulfilled r"
        by (auto simp: try_block_request)
      with l2 r1 ans True show ?thesis
        by (intro exI [of _ True] exI [of _ "[]"] exI [of _ "[]"] exI [of _ 0])
           (simp add: action_calls_def count_calls_def)
    next
      case False
      then obtain u where u: "uuid createdLink = Some u" "u \<noteq> []" by auto
      with assms(1) s1 r1 have s2: "after_creation this_links options u w2 = (r, w')"
        by (simp add: try_block_request)
      from assms(2) o2 have same: "objects w2 ! options = objects w ! options"
        by (simp add: nth_append)
      from after_creation_run [OF s2, unfolded same] obtain ext n where
        e: "log w' = log w2 @ ext" "n \<le> length ?as"
        "map fst (action_calls ext) = map (Call_postLinksByLinkUuidActions u) (take n ?as)"
        "list_all snd (butlast ext)"
        "fulfilled r \<longrightarrow> n = length ?as"
        "0 < count_calls is_read_back ext \<longrightarrow> n = length ?as"
        "\<not> fulfilled r \<longrightarrow> ext \<noteq> [] \<and> \<not> snd (last ext)"
        "n < length ?as \<and> 0 < n \<longrightarrow>
            last ext = (Call_postLinksByLinkUuidActions u (?as ! (n - 1)), False)"
        by (elim exE conjE) (rule that)
      have ne: "ext \<noteq> []" if "0 < n"
        using that e(2,3) by (auto simp: action_calls_def)
      from e ne l2 r1 u ans show ?thesis
        by (intro exI [of _ True] exI [of _ ext] exI [of _ u] exI [of _ n]) auto
    qed
  qed
qed

lemma createLink_world:
  "snd (createLink this_links options w) = snd (try_block this_links options w)"
  by (simp add: createLink_def split: prod.splits sum.splits)

lemma createLink_rejection:
  "fst (createLink this_links options w) = Inl e \<Longrightarrow>
     \<exists>e0. e = JsError (''Failed to create link: '' @
                        (if instanceof_Error e0 then message e0 else ''Unknown error'')) None None"
  by (auto simp: createLink_def catch_clause_def new_Error_def split: prod.splits sum.splits)

section \<open>The claims\<close>

text \<open>
  Claim C1. For options with no toll, no resource and no actions, \<open>createLink\<close> issues
  exactly one link-creation call and one read-back call with the created uuid, no toll,
  resource or action call, and returns the link that the read-back produced, unchanged.
  \<open>createLink\<close> does not compare the uuid of that link with the created one: the two
  agree when the read-back answers with the link of the uuid it was asked for, and the
  run after the theorem is one where they differ.
\<close>

theorem createLink_plain_link:
  assumes "options < length (objects w)"
    and "toll (objects w ! options) = None"
    and "resource (objects w ! options) = None"
    and "actions (objects w ! options) = None \<or> actions (objects w ! options) = Some []"
    and "postLinks this_links (without_sub_resources (objects w ! options)) (server w)
           = (Inr createdLink, s1)"
    and "uuid createdLink = Some linkUuid" and "linkUuid \<noteq> []"
    and "getLinksByUuidOrAlias this_links linkUuid s1 = (Inr completeLink, s2)"
  shows "case createLink this_links options w of (r, w') \<Rightarrow>
           r = Inr completeLink
         \<and> issued w w' =
             [(Call_postLinks (without_sub_resources (objects w ! options)), True),
              (Call_getLinksByUuidOrAlias linkUuid, True)]
         \<and> count_calls is_postLinks (issued w w') = 1
         \<and> count_calls is_toll_call (issued w w') = 0
         \<and> count_calls is_resource_call (issued w w') = 0
         \<and> count_calls is_action_call (issued w w') = 0
         \<and> count_calls is_read_back (issued w w') = 1
         \<and> server w' = s2
         \<and> (uuid completeLink = Some linkUuid \<longrightarrow>
               (\<exists>l. r = Inr l \<and> uuid l = uuid createdLink))"
  using assms
  by (auto simp: createLink_def try_block_request await_eq after_creation_def create_toll_def
      create_resource_def create_actions_def nth_append count_calls_def)

theorem createLink_plain_link_witness:
  "0 < length (objects (start simple_options))
   \<and> toll (objects (start simple_options) ! 0) = None
   \<and> resource (objects (start simple_options) ! 0) = None
   \<and> actions (objects (start simple_options) ! 0) = None
   \<and> postLinks always_ok (without_sub_resources (objects (start simple_options) ! 0))
        (server (start simple_options)) = (Inr \<lparr>uuid = Some ''u1'', url = None\<rparr>, 1)
   \<and> getLinksByUuidOrAlias always_ok ''u1'' 1
        = (Inr \<lparr>uuid = Some ''u1'', url = Some ''https://gatepay.cloud/u1''\<rparr>, 2)
   \<and> uuid \<lparr>uuid = Some ''u1'', url = Some ''https://gatepay.cloud/u1''\<rparr> = Some ''u1''
   \<and> fst (createLink always_ok 0 (start simple_options))
        = Inr \<lparr>uuid = Some ''u1'', url = Some ''https://gatepay.cloud/u1''\<rparr>
   \<and> log (snd (createLink always_ok 0 (start simple_options)))
        = [(Call_postLinks simple_options, True), (Call_getLinksByUuidOrAlias ''u1'', True)]"
proof -
  let ?w = "start simple_options"
  have h1: "0 < length (objects ?w)"
    and h2: "toll (objects ?w ! 0) = None"
    and h3: "resource (objects ?w ! 0) = None"
    and h4: "actions (objects ?w ! 0) = None \<or> actions (objects ?w ! 0) = Some []"
    and h5: "postLinks always_ok (without_sub_resources (objects ?w ! 0)) (server ?w)
               = (Inr \<lparr>uuid = Some ''u1'', url = None\<rparr>, 1)"
    and h6: "uuid \<lparr>uuid = Some ''u1'', url = None\<rparr> = Some ''u1''"
    and h7: "''u1'' \<noteq> []"
    and h8: "getLinksByUuidOrAlias always_ok ''u1'' 1
               = (Inr \<lparr>uuid = Some ''u1'', url = Some ''https://gatepay.cloud/u1''\<rparr>, 2)"
    by (simp_all add: run_defs)
  from createLink_plain_link [OF h1 h2 h3 h4 h5 h6 h7 h8] h1 h2 h3 h5 h8
  show ?thesis
    by (simp add: issued_def start_def simple_options_def without_sub_resources_def
        split: prod.splits)
qed

theorem createLink_uuid_mismatch_counterexample:
  "0 < length (objects (start simple_options))
   \<and> toll (objects (start simple_options) ! 0) = None
   \<and> resource (objects (start simple_options) ! 0) = None
   \<and> actions (objects (start simple_options) ! 0) = None
   \<and> postLinks misdirected (without_sub_resources (objects (start simple_options) ! 0))
        (server (start simple_options)) = (Inr \<lparr>uuid = Some ''u1'', url = None\<rparr>, 1)
   \<and> getLinksByUuidOrAlias misdirected ''u1'' 1
        = (Inr \<lparr>uuid = Some ''other'', url = None\<rparr>, 2)
   \<and> fst (createLink misdirected 0 (start simple_options))
        = Inr \<lparr>uuid = Some ''other'', url = None\<rparr>
   \<and> log (snd (createLink misdirected 0 (start simple_options)))
        = [(Call_postLinks simple_options, True), (Call_getLinksByUuidOrAlias ''u1'', True)]
   \<and> uuid \<lparr>uuid = Some ''other'', url = None\<rparr> \<noteq> uuid \<lparr>uuid = Some ''u1'', url = None\<rparr>"
  by (simp add: run_defs)

text \<open>
  Claim C2. When the response of link creation has no uuid, or an empty one,
  \<open>createLink\<close> is rejected with the "no UUID returned" error and issues no call after
  the creation call: no toll, resource or action creation and no read-back.
\<close>

theorem createLink_missing_uuid:
  assumes "options < length (objects w)"
    and "postLinks this_links (without_sub_resources (objects w ! options)) (server w)
           = (Inr createdLink, s1)"
    and "uuid createdLink = None \<or> uuid createdLink = Some []"
  shows "case createLink this_links options w of (r, w') \<Rightarrow>
           r = Inl (new_Error ''Failed to create link: Failed to create link: no UUID returned'')
         \<and> issued w w' =
             [(Call_postLinks (without_sub_resources (objects w ! options)), True)]
         \<and> count_calls is_toll_call (issued w w') = 0
         \<and> count_calls is_resource_call (issued w w') = 0
         \<and> count_calls is_action_call (issued w w') = 0
         \<and> count_calls is_read_back (issued w w') = 0
         \<and> server w' = s1"
  using assms
  by (auto simp: createLink_def try_block_request await_eq catch_clause_def new_Error_def
      count_calls_def)

theorem createLink_missing_uuid_witness:
  "0 < length (objects (start complex_options))
   \<and> postLinks no_uuid (without_sub_resources (objects (start complex_options) ! 0))
        (server (start complex_options)) = (Inr \<lparr>uuid = None, url = None\<rparr>, 1)
   \<and> fst (createLink no_uuid 0 (start complex_options))
        = Inl (JsError ''Failed to create link: Failed to create link: no UUID returned'' None None)
   \<and> log (snd (createLink no_uuid 0 (start complex_options)))
        = [(Call_postLinks simple_options, True)]
   \<and> server (snd (createLink no_uuid 0 (start complex_options))) = 1"
proof -
  let ?w = "start complex_options"
  have h1: "0 < length (objects ?w)"
    and h2: "postLinks no_uuid (without_sub_resources (objects ?w ! 0)) (server ?w)
               = (Inr \<lparr>uuid = None, url = None\<rparr>, 1)"
    and h3: "uuid \<lparr>uuid = None, url = None\<rparr> = None \<or> uuid \<lparr>uuid = None, url = None\<rparr> = Some []"
    by (simp_all add: run_defs)
  from createLink_missing_uuid [OF h1 h2 h3] h1 h2
  show ?thesis
    by (simp add: issued_def start_def simple_options_def complex_options_def
        without_sub_resources_def new_Error_def split: prod.splits)
qed

text \<open>
  Claim C3. When a toll is supplied and the toll call is rejected, \<open>createLink\<close> is
  rejected; the log holds the fulfilled link-creation call and the rejected toll call and
  nothing else: no resource, action or read-back call, and no delete that would roll the
  link back. The service is left in the state the toll call left it in.
\<close>

theorem createLink_toll_rejected:
  assumes "options < length (objects w)"
    and "toll (objects w ! options) = Some t"
    and "postLinks this_links (without_sub_resources (objects w ! options)) (server w)
           = (Inr createdLink, s1)"
    and "uuid createdLink = Some linkUuid" and "linkUuid \<noteq> []"
    and "postLinksByLinkUuidTolls this_links linkUuid t s1 = (Inl e, s2)"
  shows "case createLink this_links options w of (r, w') \<Rightarrow>
           r = Inl (catch_clause e)
         \<and> issued w w' =
             [(Call_postLinks (without_sub_resources (objects w ! options)), True),
              (Call_postLinksByLinkUuidTolls linkUuid t, False)]
         \<and> count_calls is_resource_call (issued w w') = 0
         \<and> count_calls is_action_call (issued w w') = 0
         \<and> count_calls is_read_back (issued w w') = 0
         \<and> count_calls is_delete (issued w w') = 0
         \<and> server w' = s2"
  using assms
  by (auto simp: createLink_def try_block_request await_eq after_creation_def create_toll_def
      nth_append count_calls_def)

theorem createLink_toll_rejected_witness:
  "0 < length (objects (start complex_options))
   \<and> toll (objects (start complex_options) ! 0) = Some usdc_toll
   \<and> postLinks toll_rejecting (without_sub_resources (objects (start complex_options) ! 0))
        (server (start complex_options)) = (Inr \<lparr>uuid = Some ''u1'', url = None\<rparr>, 1)
   \<and> postLinksByLinkUuidTolls toll_rejecting ''u1'' usdc_toll 1 = (Inl unauthorized, 1)
   \<and> fst (createLink toll_rejecting 0 (start complex_options))
        = Inl (JsError ''Failed to create link: Response returned an error code'' None None)
   \<and> log (snd (createLink toll_rejecting 0 (start complex_options)))
        = [(Call_postLinks simple_options, True),
           (Call_postLinksByLinkUuidTolls ''u1'' usdc_toll, False)]
   \<and> server (snd (createLink toll_rejecting 0 (start complex_options))) = 1"
proof -
  let ?w = "start complex_options"
  have h1: "0 < length (objects ?w)"
    and h2: "toll (objects ?w ! 0) = Some usdc_toll"
    and h3: "postLinks toll_rejecting (without_sub_resources (objects ?w ! 0)) (server ?w)
               = (Inr \<lparr>uuid = Some ''u1'', url = None\<rparr>, 1)"
    and h4: "uuid \<lparr>uuid = Some ''u1'', url = None\<rparr> = Some ''u1''"
    and h5: "''u1'' \<noteq> []"
    and h6: "postLinksByLinkUuidTolls toll_rejecting ''u1'' usdc_toll 1 = (Inl unauthorized, 1)"
    by (simp_all add: run_defs)
  from createLink_toll_rejected [OF h1 h2 h3 h4 h5 h6] h1 h2 h3 h6
  show ?thesis
    by (simp add: issued_def start_def simple_options_def complex_options_def
        without_sub_resources_def catch_clause_def new_Error_def unauthorized_def
        split: prod.splits)
qed

text \<open>
  Claim C4. The action calls of a run are the first \<open>n\<close> supplied actions, in list
  order, each scoped to the uuid that link creation returned and each issued after the
  one before it has settled. A fulfilled run, and any run that gets to the read-back, has
  issued all of them. When fewer were issued, the run is rejected, and if any was issued
  the last call of the run is the rejected call for the action at position \<open>n - 1\<close>. A
  rejected run ends with a rejected call, unless link creation answered without a uuid.
  Whenever a call at position \<open>j\<close> was issued, every call at an earlier position \<open>i\<close> was
  fulfilled: after a rejected action no later action is attempted. With the actions
  \<open>[A, B]\<close> and \<open>A\<close> rejected, the only action call is the one for \<open>A\<close>; with both
  fulfilled, the action calls are those for \<open>A\<close> and \<open>B\<close>, in this order.
\<close>

theorem createLink_actions_in_order:
  assumes "options < length (objects w)"
  shows "case createLink this_links options w of (r, w') \<Rightarrow>
           (\<exists>u n. n \<le> length (supplied_actions (objects w ! options))
              \<and> map fst (action_calls (issued w w')) =
                  map (Call_postLinksByLinkUuidActions u)
                    (take n (supplied_actions (objects w ! options)))
              \<and> (\<forall>c s1. postLinks this_links (without_sub_resources (objects w ! options)) (server w)
                            = (Inr c, s1) \<and> 0 < n \<longrightarrow> uuid c = Some u)
              \<and> (fulfilled r \<longrightarrow> n = length (supplied_actions (objects w ! options)))
              \<and> (0 < count_calls is_read_back (issued w w') \<longrightarrow>
                    n = length (supplied_actions (objects w ! options)))
              \<and> (n < length (supplied_actions (objects w ! options)) \<and> 0 < n \<longrightarrow>
                    last (issued w w') =
                      (Call_postLinksByLinkUuidActions u
                         (supplied_actions (objects w ! options) ! (n - 1)), False)))
         \<and> (\<not> fulfilled r \<longrightarrow>
               \<not> snd (last (issued w w'))
             \<or> (\<exists>c s1. postLinks this_links (without_sub_resources (objects w ! options)) (server w)
                          = (Inr c, s1) \<and> (uuid c = None \<or> uuid c = Some [])))
         \<and> (\<forall>i j. i < j \<and> j < length (action_calls (issued w w'))
               \<longrightarrow> snd (action_calls (issued w w') ! i))
         \<and> (\<forall>i j. i < j \<and> j < length (issued w w') \<longrightarrow> snd (issued w w' ! i))"
proof -
  let ?req = "without_sub_resources (objects w ! options)"
  let ?as = "supplied_actions (objects w ! options)"
  obtain r w' where run: "createLink this_links options w = (r, w')" by force
  obtain r0 w0 where t0: "try_block this_links options w = (r0, w0)" by force
  with run have w0: "w0 = w'" and f: "fulfilled r = fulfilled r0"
    by (auto simp: createLink_def split: sum.splits)
  from t0 w0 have t: "try_block this_links options w = (r0, w')" by simp
  from try_block_run [OF t assms] obtain ok rest u n where
    l: "log w' = log w @ (Call_postLinks ?req, ok) # rest" and
    n: "n \<le> length ?as" and
    a: "map fst (action_calls rest) = map (Call_postLinksByLinkUuidActions u) (take n ?as)" and
    b: "list_all snd (butlast ((Call_postLinks ?req, ok) # rest))" and
    p: "\<forall>c s1. postLinks this_links ?req (server w) = (Inr c, s1) \<and> 0 < n \<longrightarrow> uuid c = Some u" and
    q: "fulfilled r0 \<longrightarrow> n = length ?as" and
    rb: "0 < count_calls is_read_back rest \<longrightarrow> n = length ?as" and
    la: "n < length ?as \<and> 0 < n \<longrightarrow>
           last ((Call_postLinks ?req, ok) # rest)
             = (Call_postLinksByLinkUuidActions u (?as ! (n - 1)), False)" and
    rj: "\<not> fulfilled r0 \<longrightarrow>
           \<not> snd (last ((Call_postLinks ?req, ok) # rest))
         \<or> (\<exists>c s1. postLinks this_links ?req (server w) = (Inr c, s1)
                    \<and> (uuid c = None \<or> uuid c = Some []))"
    by (elim exE conjE) (rule that)
  from l have i: "issued w w' = (Call_postLinks ?req, ok) # rest"
    by (rule issued_append)
  from i a have a': "map fst (action_calls (issued w w')) =
      map (Call_postLinksByLinkUuidActions u) (take n ?as)"
    by (simp add: action_calls_def)
  from i rb have rb': "0 < count_calls is_read_back (issued w w') \<longrightarrow> n = length ?as"
    by (simp add: count_calls_def)
  from i b have b': "list_all snd (butlast (issued w w'))"
    by simp
  then have c': "list_all snd (butlast (action_calls (issued w w')))"
    unfolding action_calls_def by (rule butlast_filter)
  have first: "\<exists>u n. n \<le> length ?as
              \<and> map fst (action_calls (issued w w')) =
                  map (Call_postLinksByLinkUuidActions u) (take n ?as)
              \<and> (\<forall>c s1. postLinks this_links ?req (server w) = (Inr c, s1) \<and> 0 < n
                     \<longrightarrow> uuid c = Some u)
              \<and> (fulfilled r \<longrightarrow> n = length ?as)
              \<and> (0 < count_calls is_read_back (issued w w') \<longrightarrow> n = length ?as)
              \<and> (n < length ?as \<and> 0 < n \<longrightarrow>
                    last (issued w w') = (Call_postLinksByLinkUuidActions u (?as ! (n - 1)), False))"
    using n a' p q rb' la f i
    by (intro exI [of _ u] exI [of _ n]) simp
  have second: "\<not> fulfilled r \<longrightarrow>
               \<not> snd (last (issued w w'))
             \<or> (\<exists>c s1. postLinks this_links ?req (server w) = (Inr c, s1)
                        \<and> (uuid c = None \<or> uuid c = Some []))"
    using rj f i by simp
  have third: "\<forall>i j. i < j \<and> j < length (action_calls (issued w w'))
               \<longrightarrow> snd (action_calls (issued w w') ! i)"
    using c' by (auto intro: earlier_fulfilled)
  have fourth: "\<forall>i j. i < j \<and> j < length (issued w w') \<longrightarrow> snd (issued w w' ! i)"
    using b' by (auto intro: earlier_fulfilled)
  from first second third fourth run show ?thesis
    by simp
qed

theorem createLink_actions_in_order_witness:
  "0 < length (objects (start complex_options))
   \<and> supplied_actions (objects (start complex_options) ! 0) = [action_A, action_B]
   \<and> fst (createLink action_A_rejecting 0 (start complex_options))
        = Inl (JsError ''Failed to create link: Unknown error'' None None)
   \<and> action_calls (issued (start complex_options)
        (snd (createLink action_A_rejecting 0 (start complex_options))))
        = [(Call_postLinksByLinkUuidActions ''u1'' action_A, False)]
   \<and> length (issued (start complex_options)
         (snd (createLink action_A_rejecting 0 (start complex_options)))) = 4
   \<and> snd (issued (start complex_options)
         (snd (createLink action_A_rejecting 0 (start complex_options))) ! 2)
   \<and> last (issued (start complex_options)
         (snd (createLink action_A_rejecting 0 (start complex_options))))
        = (Call_postLinksByLinkUuidActions ''u1'' action_A, False)
   \<and> fulfilled (fst (createLink always_ok 0 (start complex_options)))
   \<and> action_calls (issued (start complex_options)
        (snd (createLink always_ok 0 (start complex_options))))
        = [(Call_postLinksByLinkUuidActions ''u1'' action_A, True),
           (Call_postLinksByLinkUuidActions ''u1'' action_B, True)]
   \<and> 0 < count_calls is_read_back (issued (start complex_options)
        (snd (createLink always_ok 0 (start complex_options))))"
proof -
  let ?w = "start complex_options"
  have h1: "0 < length (objects ?w)"
    by (simp add: start_def)
  have run: "createLink action_A_rejecting 0 ?w =
     (Inl (JsError ''Failed to create link: Unknown error'' None None),
      \<lparr>objects = [complex_options, simple_options], server = 3,
       log = [(Call_postLinks simple_options, True),
              (Call_postLinksByLinkUuidTolls ''u1'' usdc_toll, True),
              (Call_postLinksByLinkUuidResources ''u1''
                 (Resource ''redirect'' (Url_data ''https://example.com/premium'')), True),
              (Call_postLinksByLinkUuidActions ''u1'' action_A, False)]\<rparr>)"
    by (simp add: run_defs)
  have run_ok: "createLink always_ok 0 ?w =
     (Inr \<lparr>uuid = Some ''u1'', url = Some ''https://gatepay.cloud/u1''\<rparr>,
      \<lparr>objects = [complex_options, simple_options], server = 6,
       log = [(Call_postLinks simple_options, True),
              (Call_postLinksByLinkUuidTolls ''u1'' usdc_toll, True),
              (Call_postLinksByLinkUuidResources ''u1''
                 (Resource ''redirect'' (Url_data ''https://example.com/premium'')), True),
              (Call_postLinksByLinkUuidActions ''u1'' action_A, True),
              (Call_postLinksByLinkUuidActions ''u1'' action_B, True),
              (Call_getLinksByUuidOrAlias ''u1'', True)]\<rparr>)"
    by (simp add: run_defs)
  from createLink_actions_in_order [OF h1, of action_A_rejecting]
       createLink_actions_in_order [OF h1, of always_ok] h1 run run_ok
  show ?thesis
    by (simp add: issued_def start_def action_calls_def count_calls_def supplied_actions_def
        complex_options_def)
qed

text \<open>
  Claim C5. After \<open>updateApiToken t\<close> the client holds a new \<open>Configuration\<close> with the
  token \<open>t\<close> and the base path it had before; its three sub-client fields point at
  three new objects bound to that \<open>Configuration\<close>, so a call through them uses
  \<open>t\<close>. No older object is changed: a sub-client handle taken before the update still
  uses the token it used then.
\<close>

theorem updateApiToken_rebinds:
  assumes "live (this, h)"
  shows "case updateApiToken t (this, h) of (this', h') \<Rightarrow>
     configurations h' ! configuration this' =
        \<lparr>Configuration.basePath = Configuration.basePath (configurations h ! configuration this), accessToken = t\<rparr>
   \<and> configuration this' = length (configurations h)
   \<and> sub_clients h' ! account this' = AccountApi (configuration this')
   \<and> sub_clients h' ! links this' = LinksApi (configuration this')
   \<and> sub_clients h' ! networks this' = NetworksApi (configuration this')
   \<and> length (sub_clients h) \<le> account this'
   \<and> length (sub_clients h) \<le> links this'
   \<and> length (sub_clients h) \<le> networks this'
   \<and> distinct [account this', links this', networks this']
   \<and> credential_used h' (account this') = t
   \<and> credential_used h' (links this') = t
   \<and> credential_used h' (networks this') = t
   \<and> (\<forall>c < length (configurations h). configurations h' ! c = configurations h ! c)
   \<and> (\<forall>a < length (sub_clients h).
         sub_clients h' ! a = sub_clients h ! a \<and> credential_used h' a = credential_used h a)
   \<and> credential_used h' (links this) = credential_used h (links this)
   \<and> live (this', h')"
  using assms
  by (auto simp: updateApiToken_eq live_def credential_used_def nth_append list_all_length less_Suc_eq)

theorem updateApiToken_rebinds_witness:
  "live (new_Gatepay \<lparr>apiToken = ''t1'', basePath = None\<rparr> empty_heap)
   \<and> (case updateApiToken ''t2'' (new_Gatepay \<lparr>apiToken = ''t1'', basePath = None\<rparr> empty_heap) of
        (this', h') \<Rightarrow>
          credential_used h' (links this') = ''t2''
        \<and> credential_used h' (links (fst (new_Gatepay \<lparr>apiToken = ''t1'', basePath = None\<rparr> empty_heap))) = ''t1''
        \<and> Configuration.basePath (configurations h' ! configuration this') = ''https://api.gatepay.cloud'')"
proof -
  let ?g = "\<lparr>configuration = 0, account = 0, links = Suc 0, networks = Suc (Suc 0)\<rparr>"
  let ?h = "\<lparr>configurations = [\<lparr>Configuration.basePath = ''https://api.gatepay.cloud'', accessToken = ''t1''\<rparr>],
             sub_clients = [AccountApi 0, LinksApi 0, NetworksApi 0]\<rparr>"
  have built: "new_Gatepay \<lparr>apiToken = ''t1'', basePath = None\<rparr> empty_heap = (?g, ?h)"
    by (simp add: new_Gatepay_eq empty_heap_def basePath_or_default_def default_basePath_def)
  have l: "live (?g, ?h)"
    by (simp add: live_def)
  from updateApiToken_rebinds [OF l, of "''t2''"] l built show ?thesis
    by (simp add: updateApiToken_eq credential_used_def)
qed

text \<open>
  Claim C6. The error of a failed run should keep the original error, with its HTTP
  status, within reach; the error handling example of the README reads \<open>error.status\<close>
  of what \<open>createLink\<close> throws. The \<open>catch\<close> clause builds a new plain \<open>Error\<close> from
  the message text alone. In the run below the toll call of step 2 is rejected with a 401:
  the error that reaches the caller has no status and no cause, and the original error
  cannot be reached from it.
\<close>

theorem createLink_drops_status_and_cause:
  "fst (createLink toll_rejecting 0 (start complex_options))
     = Inl (JsError ''Failed to create link: Response returned an error code'' None None)
   \<and> http_status unauthorized = Some 401
   \<and> http_status (JsError ''Failed to create link: Response returned an error code'' None None) = None
   \<and> cause (JsError ''Failed to create link: Response returned an error code'' None None) = None
   \<and> \<not> reachable_from unauthorized
          (JsError ''Failed to create link: Response returned an error code'' None None)"
  by (simp add: run_defs)

text \<open>
  Claim C7. A client constructed without \<open>basePath\<close> has the base path
  \<open>https://api.gatepay.cloud\<close>, and \<open>getConfiguration\<close> returns the
  \<open>Configuration\<close> the client currently holds.
\<close>

theorem default_basePath_when_omitted:
  "(case new_Gatepay \<lparr>apiToken = t, basePath = None\<rparr> h of (this, h') \<Rightarrow>
      getConfiguration this = configuration this
    \<and> Configuration.basePath (configurations h' ! getConfiguration this) = ''https://api.gatepay.cloud'')"
  by (simp add: new_Gatepay_eq getConfiguration_def basePath_or_default_def default_basePath_def)

text \<open>
  Claim C8. For arbitrary string arguments the two fields need not be non-empty: an empty
  token or an empty argument of an update reaches the \<open>Configuration\<close>. What holds: the
  base path after construction is never empty, since the default replaces a missing or
  empty one; and when the token given to the constructor and the argument of every update
  are non-empty, every \<open>Configuration\<close> the client allocates has two non-empty fields.
\<close>

theorem configuration_non_empty_for_non_empty_arguments:
  "Configuration.basePath (current_configuration (new_Gatepay options h)) \<noteq> []
   \<and> (apiToken options \<noteq> [] \<and> (\<forall>u \<in> set us. argument u \<noteq> []) \<longrightarrow>
        non_empty_fields (current_configuration (apply_updates us (new_Gatepay options h)))
      \<and> list_all non_empty_fields
          (drop (length (configurations h))
             (configurations (snd (apply_updates us (new_Gatepay options h))))))"
proof (intro conjI impI)
  show "Configuration.basePath (current_configuration (new_Gatepay options h)) \<noteq> []"
    by (simp add: new_Gatepay_eq current_configuration_def getConfiguration_def
        basePath_or_default_non_empty)
next
  assume a: "apiToken options \<noteq> [] \<and> (\<forall>u \<in> set us. argument u \<noteq> [])"
  let ?n = "length (configurations h)"
  let ?r = "apply_updates us (new_Gatepay options h)"
  have "configuration (fst ?r) < length (configurations (snd ?r))
       \<and> ?n \<le> configuration (fst ?r)
       \<and> list_all non_empty_fields (drop ?n (configurations (snd ?r)))"
    using a
    by (intro non_empty_invariant_run)
       (simp_all add: new_Gatepay_eq non_empty_fields_def basePath_or_default_non_empty)
  then show "non_empty_fields (current_configuration ?r)"
    and "list_all non_empty_fields (drop ?n (configurations (snd ?r)))"
    by (auto simp: current_configuration_def getConfiguration_def list_all_length split: prod.splits
          dest!: spec [of _ "configuration (fst ?r) - ?n"])
qed

theorem configuration_non_empty_for_non_empty_arguments_witness:
  "apiToken \<lparr>apiToken = ''t1'', basePath = Some ''''\<rparr> \<noteq> []
   \<and> argument (UpdateApiToken ''t2'') \<noteq> []
   \<and> argument (UpdateBasePath ''https://example.com'') \<noteq> []
   \<and> current_configuration (apply_updates [UpdateApiToken ''t2'', UpdateBasePath ''https://example.com'']
         (new_Gatepay \<lparr>apiToken = ''t1'', basePath = Some ''''\<rparr> empty_heap))
       = \<lparr>Configuration.basePath = ''https://example.com'', accessToken = ''t2''\<rparr>
   \<and> non_empty_fields (current_configuration (apply_updates [UpdateApiToken ''t2'', UpdateBasePath ''https://example.com'']
         (new_Gatepay \<lparr>apiToken = ''t1'', basePath = Some ''''\<rparr> empty_heap)))"
  using configuration_non_empty_for_non_empty_arguments
          [of "\<lparr>apiToken = ''t1'', basePath = Some ''''\<rparr>" empty_heap
              "[UpdateApiToken ''t2'', UpdateBasePath ''https://example.com'']"]
  by (simp add: new_Gatepay_eq updateApiToken_eq updateBasePath_eq empty_heap_def
      current_configuration_def getConfiguration_def)

theorem empty_fields_counterexample:
  "\<not> non_empty_fields (current_configuration (new_Gatepay \<lparr>apiToken = '''', basePath = None\<rparr> empty_heap))
   \<and> \<not> non_empty_fields (current_configuration
          (updateBasePath '''' (new_Gatepay \<lparr>apiToken = ''t1'', basePath = None\<rparr> empty_heap)))
   \<and> \<not> non_empty_fields (current_configuration
          (updateApiToken '''' (new_Gatepay \<lparr>apiToken = ''t1'', basePath = None\<rparr> empty_heap)))"
  by (simp add: new_Gatepay_eq updateApiToken_eq updateBasePath_eq empty_heap_def
      current_configuration_def getConfiguration_def non_empty_fields_def)

text \<open>
  Claim C9. \<open>createLink\<close> does not write to the caller's options object. The request
  of step 1 is a new object, a copy of the options with \<open>toll\<close>, \<open>resource\<close> and
  \<open>actions\<close> set to \<open>undefined\<close>; it is the only change to the store, whether the run
  is fulfilled or rejected, so the caller's object keeps its three properties.
\<close>

theorem createLink_leaves_options:
  assumes "options < length (objects w)"
  shows "case createLink this_links options w of (r, w') \<Rightarrow>
           objects w' ! options = objects w ! options
         \<and> toll (objects w' ! options) = toll (objects w ! options)
         \<and> resource (objects w' ! options) = resource (objects w ! options)
         \<and> actions (objects w' ! options) = actions (objects w ! options)
         \<and> (\<forall>a < length (objects w). objects w' ! a = objects w ! a)
         \<and> objects w' = objects w @
              [(objects w ! options)\<lparr>toll := None, resource := None, actions := None\<rparr>]
         \<and> (\<exists>ok rest. issued w w' =
              (Call_postLinks
                 ((objects w ! options)\<lparr>toll := None, resource := None, actions := None\<rparr>), ok) # rest)"
proof -
  obtain r w' where run: "createLink this_links options w = (r, w')" by force
  then obtain r0 where t: "try_block this_links options w = (r0, w')"
    using createLink_world [of this_links options w] by (cases "try_block this_links options w") simp
  from try_block_log [OF t assms] assms run show ?thesis
    by (auto simp: nth_append without_sub_resources_def)
qed

theorem createLink_leaves_options_witness:
  "0 < length (objects (start complex_options))
   \<and> objects (snd (createLink always_ok 0 (start complex_options))) ! 0 = complex_options
   \<and> objects (snd (createLink always_ok 0 (start complex_options))) ! 1 = simple_options
   \<and> toll (objects (snd (createLink toll_rejecting 0 (start complex_options))) ! 0)
       = Some usdc_toll"
proof -
  let ?w = "start complex_options"
  have h1: "0 < length (objects ?w)"
    by (simp add: start_def)
  from createLink_leaves_options [OF h1, of always_ok]
       createLink_leaves_options [OF h1, of toll_rejecting] h1
  show ?thesis
    by (simp add: start_def complex_options_def simple_options_def split: prod.splits)
qed

text \<open>
  Claim C10. Whatever \<open>createLink\<close> throws is a plain \<open>Error\<close> whose message starts
  with "Failed to create link: "; this holds for a rejected link-creation call of step 1
  as well. When the uuid is missing, the error thrown inside the \<open>try\<close> block is caught
  and wrapped once more, and the prefix appears twice.
\<close>

theorem createLink_error_prefix:
  "(\<forall>e. fst (createLink this_links options w) = Inl e \<longrightarrow>
        (\<exists>m. e = JsError (''Failed to create link: '' @ m) None None))
   \<and> (\<forall>e0 s1. postLinks this_links (without_sub_resources (objects w ! options)) (server w)
                 = (Inl e0, s1) \<longrightarrow>
        fst (createLink this_links options w) =
          Inl (JsError (''Failed to create link: '' @
                 (if instanceof_Error e0 then message e0 else ''Unknown error'')) None None))
   \<and> (\<forall>createdLink s1.
        postLinks this_links (without_sub_resources (objects w ! options)) (server w)
          = (Inr createdLink, s1)
        \<and> (uuid createdLink = None \<or> uuid createdLink = Some []) \<longrightarrow>
        fst (createLink this_links options w) =
          Inl (JsError ''Failed to create link: Failed to create link: no UUID returned'' None None))"
proof (intro conjI allI impI)
  fix e assume "fst (createLink this_links options w) = Inl e"
  from createLink_rejection [OF this]
  show "\<exists>m. e = JsError (''Failed to create link: '' @ m) None None"
    by blast
next
  fix e0 s1
  assume "postLinks this_links (without_sub_resources (objects w ! options)) (server w) = (Inl e0, s1)"
  then show "fst (createLink this_links options w) =
          Inl (JsError (''Failed to create link: '' @
                 (if instanceof_Error e0 then message e0 else ''Unknown error'')) None None)"
    by (simp add: createLink_def try_block_request await_eq catch_clause_def new_Error_def)
next
  fix createdLink s1
  assume "postLinks this_links (without_sub_resources (objects w ! options)) (server w)
          = (Inr createdLink, s1)
        \<and> (uuid createdLink = None \<or> uuid createdLink = Some [])"
  then show "fst (createLink this_links options w) =
          Inl (JsError ''Failed to create link: Failed to create link: no UUID returned'' None None)"
    by (auto simp: createLink_def try_block_request await_eq catch_clause_def new_Error_def)
qed

theorem createLink_error_prefix_witness:
  "fst (createLink creation_rejecting 0 (start simple_options))
     = Inl (JsError (''Failed to create link: '' @ ''Response returned an error code'') None None)
   \<and> postLinks creation_rejecting (without_sub_resources (objects (start simple_options) ! 0))
        (server (start simple_options)) = (Inl unauthorized, 0)
   \<and> postLinks no_uuid (without_sub_resources (objects (start simple_options) ! 0))
        (server (start simple_options)) = (Inr \<lparr>uuid = None, url = None\<rparr>, 1)
   \<and> fst (createLink no_uuid 0 (start simple_options))
     = Inl (JsError ''Failed to create link: Failed to create link: no UUID returned'' None None)"
proof -
  let ?w = "start simple_options"
  have h1: "postLinks creation_rejecting (without_sub_resources (objects ?w ! 0)) (server ?w)
              = (Inl unauthorized, 0)"
    and h2: "postLinks no_uuid (without_sub_resources (objects ?w ! 0)) (server ?w)
              = (Inr \<lparr>uuid = None, url = None\<rparr>, 1)"
    by (simp_all add: run_defs)
  from createLink_error_prefix [of creation_rejecting 0 ?w]
       createLink_error_prefix [of no_uuid 0 ?w] h1 h2
  show ?thesis
    by (simp add: unauthorized_def)
qed

end
